theory Spec2Isabelle
  imports Main "HOL-Library.Sublist"
begin

section \<open>Contract risk scanner: the scanning and reporting pipeline\<close>

text \<open>
  A shallow embedding of \<^verbatim>\<open>Scripts/risk_scanner.py\<close>.

  Python strings are modelled as \<^typ>\<open>string\<close>. A \<^typ>\<open>char\<close> is read as one of the code
  points 0..255; on these \<^verbatim>\<open>str.lower\<close> acts character by character and
  \<^verbatim>\<open>str.strip\<close> removes the characters for which \<^verbatim>\<open>str.isspace\<close> holds.
  The global dictionary \<^verbatim>\<open>RISK_RULES\<close> is passed explicitly, as an association list
  in insertion order (the order in which Python iterates over a dictionary). The OpenAI
  service is a parameter: a function of an opaque service state and the clause.
\<close>

subsection \<open>The string methods the program calls\<close>

text \<open>\<^verbatim>\<open>c.lower()\<close> for one character: A-Z and the Latin-1 capitals move up by 32.\<close>

definition lower_char :: "char \<Rightarrow> char" where
  "lower_char c =
     (let n = (of_char c :: nat) in
      if (65 \<le> n \<and> n \<le> 90) \<or> (192 \<le> n \<and> n \<le> 222 \<and> n \<noteq> 215)
      then char_of (n + 32) else c)"

text \<open>\<^verbatim>\<open>s.lower()\<close>\<close>

definition lower :: "string \<Rightarrow> string" where
  "lower s = map lower_char s"

text \<open>\<^verbatim>\<open>c.isspace()\<close>: tab, line feed, vertical tab, form feed, carriage return, the four
  separators 28..31, space, NEL and the no-break space.\<close>

definition isspace :: "char \<Rightarrow> bool" where
  "isspace c =
     (let n = (of_char c :: nat) in
      (9 \<le> n \<and> n \<le> 13) \<or> (28 \<le> n \<and> n \<le> 32) \<or> n = 133 \<or> n = 160)"

text \<open>\<^verbatim>\<open>s.strip()\<close>: leading and trailing whitespace removed.\<close>

definition strip :: "string \<Rightarrow> string" where
  "strip s = rev (dropWhile isspace (rev (dropWhile isspace s)))"

text \<open>\<^verbatim>\<open>s.split(d)\<close> for a separator \<open>d\<close> of one character: the pieces between the
  occurrences of \<open>d\<close>, empty pieces kept; the result is never the empty list.\<close>

fun split_on :: "char \<Rightarrow> string \<Rightarrow> string list" where
  "split_on d [] = [[]]"
| "split_on d (c # cs) =
     (if c = d then [] # split_on d cs
      else (case split_on d cs of
              [] \<Rightarrow> [[c]]
            | p # ps \<Rightarrow> (c # p) # ps))"

text \<open>\<^verbatim>\<open>kw in s\<close> on strings: \<open>kw\<close> occurs in \<open>s\<close> as a contiguous substring.\<close>

fun py_in :: "string \<Rightarrow> string \<Rightarrow> bool" where
  "py_in kw [] = (kw = [])"
| "py_in kw (c # cs) = (prefix kw (c # cs) \<or> py_in kw cs)"

text \<open>\<^verbatim>\<open>str(n)\<close> for a non-negative integer: its decimal digits.\<close>

fun str_nat :: "nat \<Rightarrow> string" where
  "str_nat n =
     (if n < 10 then [char_of (48 + n)]
      else str_nat (n div 10) @ [char_of (48 + n mod 10)])"

subsection \<open>The rule table\<close>

type_synonym rules = "(string \<times> string list) list"

definition RISK_RULES :: rules where
  "RISK_RULES =
     [(''Indemnity'', [''indemnify'', ''hold harmless'', ''liability'', ''compensate'']),
      (''Jurisdiction Risk'', [''jurisdiction'', ''governing law'', ''venue'', ''court'']),
      (''Payment Risk'', [''penalty'', ''late fee'', ''interest'', ''non-payment'']),
      (''Termination Risk'', [''terminate'', ''termination'', ''breach'']),
      (''Confidentiality Risk'', [''confidential'', ''non-disclosure'', ''nda''])]"

text \<open>\<^verbatim>\<open>d[k] = v\<close>: an existing key keeps its place and gets the new value, a new key is
  appended.\<close>

fun dict_set :: "rules \<Rightarrow> string \<Rightarrow> string list \<Rightarrow> rules" where
  "dict_set [] k v = [(k, v)]"
| "dict_set ((k', v') # d) k v =
     (if k' = k then (k, v) # d else (k', v') # dict_set d k v)"

text \<open>\<^verbatim>\<open>d[k]\<close> and \<^verbatim>\<open>k in d\<close>: \<open>None\<close> when the key is absent.\<close>

fun dict_get :: "rules \<Rightarrow> string \<Rightarrow> string list option" where
  "dict_get [] k = None"
| "dict_get ((k', v') # d) k = (if k' = k then Some v' else dict_get d k)"

subsection \<open>Scanning\<close>

text \<open>One entry of \<^verbatim>\<open>results\<close>: the dictionary with the five keys \<^verbatim>\<open>"Risk Type"\<close>,
  \<^verbatim>\<open>"Keyword"\<close>, \<^verbatim>\<open>"Sentence"\<close>, \<^verbatim>\<open>"Line Number"\<close>, \<^verbatim>\<open>"AI Summary"\<close>.\<close>

record finding =
  risk_type :: string
  keyword :: string
  sentence :: string
  line_number :: nat
  ai_summary :: string

text \<open>The call \<^verbatim>\<open>openai.ChatCompletion.create(...)\<close> followed by reading
  \<^verbatim>\<open>response.choices[0].message.content\<close>: from the service's state and the clause,
  either the content (\<open>Inr\<close>) or a raised \<^verbatim>\<open>Exception\<close> with its text \<^verbatim>\<open>str(e)\<close> (\<open>Inl\<close>),
  and the service's next state.\<close>

type_synonym 's summarizer = "'s \<Rightarrow> string \<Rightarrow> (string + string) \<times> 's"

definition ai_summarize_risk :: "'s summarizer \<Rightarrow> string \<Rightarrow> 's \<Rightarrow> string \<times> 's" where
  "ai_summarize_risk api clause s =
     (case api s clause of
        (Inr summary, s') \<Rightarrow> (summary, s')
      | (Inl e, s') \<Rightarrow> (''AI summary error: '' @ e, s'))"

text \<open>The innermost loop of \<^verbatim>\<open>scan_contract\<close>, \<^verbatim>\<open>for kw in keywords\<close>, on the results
  so far and the service's state.\<close>

fun scan_keywords ::
  "'s summarizer \<Rightarrow> nat \<Rightarrow> string \<Rightarrow> string \<Rightarrow> string list \<Rightarrow> finding list \<times> 's
     \<Rightarrow> finding list \<times> 's" where
  "scan_keywords api i line risk_label [] (results, s) = (results, s)"
| "scan_keywords api i line risk_label (kw # kws) (results, s) =
     (if py_in (lower kw) (lower (strip line))
      then (case ai_summarize_risk api (strip line) s of
              (summary, s') \<Rightarrow>
                scan_keywords api i line risk_label kws
                  (results @
                     [\<lparr>risk_type = risk_label, keyword = kw, sentence = strip line,
                       line_number = i + 1, ai_summary = summary\<rparr>], s'))
      else scan_keywords api i line risk_label kws (results, s))"

text \<open>\<^verbatim>\<open>for risk_label, keywords in RISK_RULES.items()\<close>\<close>

fun scan_rules ::
  "'s summarizer \<Rightarrow> nat \<Rightarrow> string \<Rightarrow> rules \<Rightarrow> finding list \<times> 's \<Rightarrow> finding list \<times> 's" where
  "scan_rules api i line [] acc = acc"
| "scan_rules api i line ((risk_label, keywords) # rs) acc =
     scan_rules api i line rs (scan_keywords api i line risk_label keywords acc)"

text \<open>\<^verbatim>\<open>for i, line in enumerate(lines)\<close>, from index \<open>i\<close> on.\<close>

fun scan_lines ::
  "'s summarizer \<Rightarrow> rules \<Rightarrow> nat \<Rightarrow> string list \<Rightarrow> finding list \<times> 's \<Rightarrow> finding list \<times> 's" where
  "scan_lines api rs i [] acc = acc"
| "scan_lines api rs i (line # lines) acc =
     scan_lines api rs (i + 1) lines (scan_rules api i line rs acc)"

definition scan_contract :: "'s summarizer \<Rightarrow> rules \<Rightarrow> string \<Rightarrow> 's \<Rightarrow> finding list \<times> 's" where
  "scan_contract api rs text s = scan_lines api rs 0 (split_on CHR ''.'' text) ([], s)"

subsection \<open>The reports\<close>

text \<open>The table that \<^verbatim>\<open>pd.DataFrame(results).to_csv(path, index=False)\<close> writes. A cell is
  a string or a number. The items of a result are listed in the insertion order of its
  dictionary literal.\<close>

datatype cell = Str string | Num nat

definition finding_items :: "finding \<Rightarrow> (string \<times> cell) list" where
  "finding_items r =
     [(''Risk Type'', Str (risk_type r)),
      (''Keyword'', Str (keyword r)),
      (''Sentence'', Str (sentence r)),
      (''Line Number'', Num (line_number r)),
      (''AI Summary'', Str (ai_summary r))]"

text \<open>The columns of a frame built from a list of dictionaries are the keys of the
  dictionaries, in the order of their first appearance; no \<^verbatim>\<open>columns=\<close> argument is
  passed, so an empty list gives a frame with no column.\<close>

fun frame_columns :: "finding list \<Rightarrow> string list \<Rightarrow> string list" where
  "frame_columns [] cols = cols"
| "frame_columns (r # results) cols =
     frame_columns results
       (cols @ filter (\<lambda>k. k \<notin> set cols) (map fst (finding_items r)))"

text \<open>One row per dictionary: under each column the dictionary's value, \<open>None\<close> for a
  missing key.\<close>

definition frame_row :: "string list \<Rightarrow> finding \<Rightarrow> cell option list" where
  "frame_row cols r = map (map_of (finding_items r)) cols"

text \<open>\<^verbatim>\<open>save_csv_report\<close>: the header line and the rows of the file written.\<close>

definition save_csv_report :: "finding list \<Rightarrow> string list \<times> cell option list list" where
  "save_csv_report results =
     (let cols = frame_columns results []
      in (cols, map (frame_row cols) results))"

text \<open>The score of \<^verbatim>\<open>save_docx_report\<close>, from \<^verbatim>\<open>num_risks = len(results)\<close>.\<close>

definition risk_score :: "nat \<Rightarrow> string" where
  "risk_score num_risks =
     (if num_risks = 0 then ''Green''
      else if num_risks \<le> 5 then ''Yellow''
      else ''Red'')"

text \<open>The document of \<^verbatim>\<open>save_docx_report\<close>: headings with their level, paragraphs of
  runs, each run with its text and whether its highlight colour was set, and the page
  break.\<close>

datatype run = Run (run_text: string) (highlighted: bool)

datatype block = Heading string nat | Paragraph "run list" | PageBreak

definition newline :: char where
  "newline = CHR 0x0A"

text \<open>\<^verbatim>\<open>doc.add_paragraph(text)\<close>: a paragraph of one run.\<close>

definition add_paragraph :: "string \<Rightarrow> block" where
  "add_paragraph t = Paragraph [Run t False]"

text \<open>The block written for one result.\<close>

definition finding_block :: "finding \<Rightarrow> block" where
  "finding_block r =
     Paragraph
       [Run (''Risk Type: '' @ risk_type r @ [newline]) False,
        Run (''Keyword: '' @ keyword r @ [newline]) False,
        Run (''Sentence: '' @ sentence r @ [newline]) False,
        Run (''Line Number: '' @ str_nat (line_number r) @ [newline]) False,
        Run (''AI Summary / Safer Wording:'' @ [newline] @ ai_summary r @ [newline]) False,
        Run (replicate 50 CHR ''-'') False]"

text \<open>\<^verbatim>\<open>for kw in kw_list\<close>: the run's highlight is set when a keyword occurs in the
  word; once set it stays set.\<close>

fun mark_keywords :: "string \<Rightarrow> string list \<Rightarrow> bool \<Rightarrow> bool" where
  "mark_keywords word [] hl = hl"
| "mark_keywords word (kw # kw_list) hl =
     mark_keywords word kw_list (if py_in (lower kw) (lower word) then True else hl)"

text \<open>\<^verbatim>\<open>for kw_list in RISK_RULES.values()\<close>\<close>

fun mark_rules :: "string \<Rightarrow> rules \<Rightarrow> bool \<Rightarrow> bool" where
  "mark_rules word [] hl = hl"
| "mark_rules word ((risk_label, kw_list) # rs) hl =
     mark_rules word rs (mark_keywords word kw_list hl)"

text \<open>\<^verbatim>\<open>run = p.add_run(word + " ")\<close> and the two loops over the rule table.\<close>

definition word_run :: "rules \<Rightarrow> string \<Rightarrow> run" where
  "word_run rs word = Run (word @ '' '') (mark_rules word rs False)"

text \<open>One paragraph of the original text: \<^verbatim>\<open>for word in para.split(" ")\<close>.\<close>

definition text_paragraph :: "rules \<Rightarrow> string \<Rightarrow> block" where
  "text_paragraph rs para = Paragraph (map (word_run rs) (split_on CHR '' '' para))"

definition save_docx_report :: "rules \<Rightarrow> finding list \<Rightarrow> string \<Rightarrow> string \<Rightarrow> block list" where
  "save_docx_report rs results original_text filename =
     (let num_risks = length results;
          score = risk_score num_risks
      in [Heading (''Contract Risk Report: '' @ filename) 0,
          add_paragraph (''Number of risks found: '' @ str_nat num_risks),
          add_paragraph (''Overall Risk Score: '' @ score),
          Heading ''Risks Found with AI Summary:'' 1]
         @ map finding_block results
         @ [PageBreak, Heading ''Full Contract Text (Keywords Highlighted):'' 1]
         @ map (text_paragraph rs) (split_on newline original_text))"

subsection \<open>Rule management\<close>

text \<open>The two menu actions read their answers with \<^verbatim>\<open>input()\<close>: the model takes the
  lines still to be read and returns the new rule table, the lines printed and the lines
  left. Reading past the last line raises \<^verbatim>\<open>EOFError\<close>, which nothing catches.\<close>

datatype error = EOFError

type_synonym rule_edit = "error + rules \<times> string list \<times> string list"

text \<open>The second half of \<^verbatim>\<open>add_keyword\<close>, from \<^verbatim>\<open>keyword = input(...).lower()\<close> on.\<close>

definition add_keyword_to :: "rules \<Rightarrow> string \<Rightarrow> string list \<Rightarrow> rule_edit" where
  "add_keyword_to rs category inp =
     (case inp of
        [] \<Rightarrow> Inl EOFError
      | answer # rest \<Rightarrow>
          (let kw = lower answer in
           case dict_get rs category of
             None \<Rightarrow> Inr (rs, [''Category does not exist.''], rest)
           | Some kws \<Rightarrow>
               Inr (dict_set rs category (kws @ [kw]),
                    [''Keyword '' @ [CHR 0x27] @ kw @ [CHR 0x27] @ '' added to ''
                       @ [CHR 0x27] @ category @ [CHR 0x27] @ ''.''],
                    rest)))"

definition add_keyword :: "rules \<Rightarrow> string list \<Rightarrow> rule_edit" where
  "add_keyword rs inp =
     (case inp of
        [] \<Rightarrow> Inl EOFError
      | category # inp1 \<Rightarrow>
          if lower category = ''new''
          then (case inp1 of
                  [] \<Rightarrow> Inl EOFError
                | new_cat # inp2 \<Rightarrow> add_keyword_to (dict_set rs new_cat []) new_cat inp2)
          else add_keyword_to rs category inp1)"

text \<open>\<^verbatim>\<open>remove_keyword\<close>; \<^verbatim>\<open>list.remove\<close> deletes the first occurrence. The line that
  shows the category's keywords is printed before the keyword is read.\<close>

definition remove_keyword :: "rules \<Rightarrow> string list \<Rightarrow> rule_edit" where
  "remove_keyword rs inp =
     (case inp of
        [] \<Rightarrow> Inl EOFError
      | category # inp1 \<Rightarrow>
          (case dict_get rs category of
             None \<Rightarrow> Inr (rs, [''Category does not exist.''], inp1)
           | Some kws \<Rightarrow>
               (case inp1 of
                  [] \<Rightarrow> Inl EOFError
                | answer # rest \<Rightarrow>
                    (let kw = lower answer in
                     if kw \<in> set kws
                     then Inr (dict_set rs category (remove1 kw kws), [''Keyword removed.''], rest)
                     else Inr (rs, [''Keyword not found.''], rest)))))"

subsection \<open>Reference notions for the statements\<close>

text \<open>A result without its summary: category, keyword, sentence as displayed, ordinal.\<close>

type_synonym raw_finding = "string \<times> string \<times> string \<times> nat"

definition raw :: "finding \<Rightarrow> raw_finding" where
  "raw f = (risk_type f, keyword f, sentence f, line_number f)"

text \<open>\<^verbatim>\<open>d.join(ps)\<close>, the inverse of splitting.\<close>

definition join :: "char \<Rightarrow> string list \<Rightarrow> string" where
  "join d ps = (case ps of [] \<Rightarrow> [] | p # qs \<Rightarrow> p @ concat (map (\<lambda>q. d # q) qs))"

text \<open>The raw findings of the sentence with index \<open>i\<close>: categories in the order of the rule
  table, keywords in the order of their list.\<close>

definition sentence_findings :: "rules \<Rightarrow> nat \<Rightarrow> string \<Rightarrow> raw_finding list" where
  "sentence_findings rs i line =
     [(risk_label, kw, strip line, i + 1).
        (risk_label, keywords) \<leftarrow> rs, kw \<leftarrow> keywords, py_in (lower kw) (lower (strip line))]"

text \<open>The raw findings of a text, sentence by sentence.\<close>

definition match_findings :: "rules \<Rightarrow> string \<Rightarrow> raw_finding list" where
  "match_findings rs text =
     concat (map (\<lambda>(i, line). sentence_findings rs i line)
               (enumerate 0 (split_on CHR ''.'' text)))"

text \<open>Attaching summaries to raw findings one after the other, the service called once
  per finding with the finding's sentence.\<close>

fun enrich :: "'s summarizer \<Rightarrow> raw_finding list \<Rightarrow> 's \<Rightarrow> finding list \<times> 's" where
  "enrich api [] s = ([], s)"
| "enrich api ((l, kw, sent, n) # fs) s =
     (case ai_summarize_risk api sent s of
        (summary, s') \<Rightarrow>
          (case enrich api fs s' of
             (out, s'') \<Rightarrow>
               (\<lparr>risk_type = l, keyword = kw, sentence = sent, line_number = n,
                 ai_summary = summary\<rparr> # out, s'')))"

text \<open>The severity bands of the specification and the label the report prints for each.\<close>

datatype severity_band = Clean | Moderate | Elevated

fun band_label :: "severity_band \<Rightarrow> string" where
  "band_label Clean = ''Green''"
| "band_label Moderate = ''Yellow''"
| "band_label Elevated = ''Red''"

section \<open>Properties\<close>

subsection \<open>Strings\<close>

lemma py_in_sublist: "py_in kw s = sublist kw s"
  by (induction s) (auto simp: sublist_Cons_right)

lemma split_on_not_Nil: "split_on d s \<noteq> []"
  by (induction s) (auto split: list.splits)

lemma join_split_on: "join d (split_on d s) = s"
  by (induction s) (auto simp: join_def split_on_not_Nil split: list.splits)

lemma split_on_no_delim: "p \<in> set (split_on d s) \<Longrightarrow> d \<notin> set p"
  by (induction s arbitrary: p) (auto split: list.splits if_splits)

lemma split_on_unique:
  "ps \<noteq> [] \<Longrightarrow> \<forall>p\<in>set ps. d \<notin> set p \<Longrightarrow> split_on d (join d ps) = ps"
proof (induction ps)
  case Nil
  then show ?case by simp
next
  case (Cons p qs)
  have no: "d \<notin> set p" using Cons.prems by simp
  show ?case
  proof (cases qs)
    case Nil
    have "split_on d p = [p]" using no by (induction p) auto
    then show ?thesis using Nil by (simp add: join_def)
  next
    case (Cons q rs)
    have ih: "split_on d (join d qs) = qs" using Cons.IH Cons.prems Cons by auto
    have "join d (p # qs) = p @ d # join d qs" using Cons by (simp add: join_def)
    moreover have "split_on d (p @ d # t) = p # split_on d t" for t
      using no by (induction p) (auto split: list.splits)
    ultimately show ?thesis using ih by simp
  qed
qed

subsection \<open>The scan, without the summaries\<close>

lemma scan_keywords_raw:
  "map raw (fst (scan_keywords api i line l kws (results, s))) =
     map raw results @
     [(l, kw, strip line, i + 1). kw \<leftarrow> kws, py_in (lower kw) (lower (strip line))]"
  by (induction kws arbitrary: results s) (auto simp: raw_def split: prod.splits)

lemma scan_rules_raw:
  "map raw (fst (scan_rules api i line rs acc)) = map raw (fst acc) @ sentence_findings rs i line"
proof (induction rs arbitrary: acc)
  case Nil
  then show ?case by (simp add: sentence_findings_def)
next
  case (Cons r rs)
  obtain l kws where r: "r = (l, kws)" by (cases r)
  obtain results s where acc: "acc = (results, s)" by (cases acc)
  show ?case unfolding r acc
    by (simp add: Cons.IH scan_keywords_raw sentence_findings_def)
qed

lemma scan_lines_raw:
  "map raw (fst (scan_lines api rs i lines acc)) =
     map raw (fst acc) @
     concat (map (\<lambda>(j, line). sentence_findings rs j line) (enumerate i lines))"
  by (induction lines arbitrary: i acc) (auto simp: scan_rules_raw)

lemma scan_contract_raw:
  "map raw (fst (scan_contract api rs text s)) = match_findings rs text"
  by (simp add: scan_contract_def match_findings_def scan_lines_raw)

subsection \<open>The severity band\<close>

text \<open>
  Claim C2. The band printed in the report is a function of the number of findings
  alone: no finding gives Clean (the report's Green), one to five findings give Moderate
  (Yellow), six or more give Elevated (Red); so 0 is Clean, 5 is Moderate and 6 is
  Elevated. In \<^verbatim>\<open>save_docx_report\<close> the score paragraph is the third block and depends on
  the results only through their number.
\<close>

theorem risk_score_bands:
  "risk_score n =
     band_label (if n = 0 then Clean else if 1 \<le> n \<and> n \<le> 5 then Moderate else Elevated)
   \<and> risk_score 0 = band_label Clean
   \<and> risk_score 5 = band_label Moderate
   \<and> risk_score 6 = band_label Elevated
   \<and> save_docx_report rs results original_text filename ! 2 =
       add_paragraph (''Overall Risk Score: '' @ risk_score (length results))"
  by (simp add: risk_score_def save_docx_report_def Let_def)

subsection \<open>The scan as matching followed by enrichment\<close>

lemma enrich_append:
  "enrich api (xs @ ys) s =
     (case enrich api xs s of (o1, s1) \<Rightarrow>
        (case enrich api ys s1 of (o2, s2) \<Rightarrow> (o1 @ o2, s2)))"
  by (induction xs arbitrary: s) (auto split: prod.splits)

lemma scan_keywords_enrich:
  "scan_keywords api i line l kws (results, s) =
     (case enrich api [(l, kw, strip line, i + 1). kw \<leftarrow> kws, py_in (lower kw) (lower (strip line))] s of
        (out, s') \<Rightarrow> (results @ out, s'))"
  by (induction kws arbitrary: results s) (auto split: prod.splits)

lemma scan_rules_enrich:
  "scan_rules api i line rs (results, s) =
     (case enrich api (sentence_findings rs i line) s of (out, s') \<Rightarrow> (results @ out, s'))"
proof (induction rs arbitrary: results s)
  case Nil
  then show ?case by (simp add: sentence_findings_def)
next
  case (Cons r rs)
  obtain l kws where r: "r = (l, kws)" by (cases r)
  have sf: "sentence_findings ((l, kws) # rs) i line =
      [(l, kw, strip line, i + 1). kw \<leftarrow> kws, py_in (lower kw) (lower (strip line))]
      @ sentence_findings rs i line"
    by (simp add: sentence_findings_def)
  show ?case unfolding r sf
    by (simp add: scan_keywords_enrich enrich_append Cons.IH split: prod.splits)
qed

lemma scan_lines_enrich:
  "scan_lines api rs i lines (results, s) =
     (case enrich api (concat (map (\<lambda>(j, line). sentence_findings rs j line) (enumerate i lines))) s of
        (out, s') \<Rightarrow> (results @ out, s'))"
proof (induction lines arbitrary: i results s)
  case Nil
  then show ?case by simp
next
  case (Cons line lines)
  show ?case
    by (simp add: scan_rules_enrich enrich_append Cons.IH split: prod.splits)
qed

lemma scan_contract_enrich:
  "scan_contract api rs text s = enrich api (match_findings rs text) s"
  by (simp add: scan_contract_def match_findings_def scan_lines_enrich split: prod.splits)

lemma match_example: "match_findings RISK_RULES ''The Vendor shall indemnify the Client. Payment is due within 30 days.'' =
  [(''Indemnity'', ''indemnify'', ''The Vendor shall indemnify the Client'', 1)]"
  by code_simp

lemma enrich_raw: "map raw (fst (enrich api fs s)) = fs"
  by (induction fs arbitrary: s) (auto simp: raw_def case_prod_beta)

lemma enrich_all_fail:
  "fst (enrich (\<lambda>s c. (Inl (err c), nxt s c)) fs s) =
     map (\<lambda>(l, kw, sent, n).
            \<lparr>risk_type = l, keyword = kw, sentence = sent, line_number = n,
             ai_summary = ''AI summary error: '' @ err sent\<rparr>) fs"
proof (induction fs arbitrary: s)
  case Nil
  then show ?case by simp
next
  case (Cons a fs)
  obtain l kw sent n where a: "a = (l, kw, sent, n)" by (cases a)
  show ?case unfolding a
    by (simp add: ai_summarize_risk_def case_prod_beta Cons.IH)
qed

subsection \<open>The order of the findings\<close>

lemma sentence_findings_ordinal:
  "r \<in> set (sentence_findings rs j line) \<Longrightarrow> snd (snd (snd r)) = j + 1"
  by (auto simp: sentence_findings_def split: if_splits)

lemma filter_sentence_findings:
  "filter (\<lambda>r. snd (snd (snd r)) = Suc i) (sentence_findings rs j line) =
     (if i = j then sentence_findings rs j line else [])"
  by (auto simp: filter_empty_conv dest: sentence_findings_ordinal intro!: filter_True)

lemma filter_enumerate_findings:
  "filter (\<lambda>r. snd (snd (snd r)) = Suc i)
     (concat (map (\<lambda>(j, line). sentence_findings rs j line) (enumerate k lines))) =
   (if k \<le> i \<and> i < k + length lines then sentence_findings rs i (lines ! (i - k)) else [])"
proof (induction lines arbitrary: k)
  case Nil
  then show ?case by auto
next
  case (Cons line lines)
  show ?case
  proof (cases "i = k")
    case True
    then show ?thesis using Cons.IH[of "Suc k"] by (simp add: filter_sentence_findings)
  next
    case False
    show ?thesis
    proof (cases "k < i")
      case True
      then have "(line # lines) ! (i - k) = lines ! (i - Suc k)"
        by (simp add: nth_Cons')
      then show ?thesis using True False
        by (simp add: filter_sentence_findings Cons.IH[of "Suc k"])
    next
      case False
      then show ?thesis using \<open>i \<noteq> k\<close>
        by (simp add: filter_sentence_findings Cons.IH[of "Suc k"])
    qed
  qed
qed

lemma sorted_map_const: "\<forall>x\<in>set xs. f x = (c::nat) \<Longrightarrow> sorted (map f xs)"
  by (induction xs) auto

lemma enumerate_findings_ordinal:
  "r \<in> set (concat (map (\<lambda>(j, line). sentence_findings rs j line) (enumerate k lines)))
     \<Longrightarrow> k < snd (snd (snd r))"
proof (induction lines arbitrary: k)
  case Nil
  then show ?case by simp
next
  case (Cons line lines)
  from Cons.prems consider
      (here) "r \<in> set (sentence_findings rs k line)"
    | (later) "r \<in> set (concat (map (\<lambda>(j, line). sentence_findings rs j line)
                                   (enumerate (Suc k) lines)))"
    by auto
  then show ?case
  proof cases
    case here
    then show ?thesis using sentence_findings_ordinal[of r rs k line] by simp
  next
    case later
    then show ?thesis using Cons.IH[of "Suc k"] by simp
  qed
qed

lemma sorted_enumerate_findings:
  "sorted (map (\<lambda>r. snd (snd (snd r)))
     (concat (map (\<lambda>(j, line). sentence_findings rs j line) (enumerate k lines))))"
proof (induction lines arbitrary: k)
  case Nil
  then show ?case by simp
next
  case (Cons line lines)
  let ?rest = "concat (map (\<lambda>(j, line). sentence_findings rs j line) (enumerate (Suc k) lines))"
  have a: "\<forall>x\<in>set (sentence_findings rs k line). snd (snd (snd x)) = k + 1"
    using sentence_findings_ordinal by blast
  have c: "sorted (map (\<lambda>r. snd (snd (snd r))) (sentence_findings rs k line))"
    using a by (rule sorted_map_const)
  have b: "\<forall>x\<in>set (sentence_findings rs k line). \<forall>y\<in>set ?rest.
           snd (snd (snd x)) \<le> snd (snd (snd y))"
  proof (intro ballI)
    fix x y
    assume "x \<in> set (sentence_findings rs k line)" "y \<in> set ?rest"
    then show "snd (snd (snd x)) \<le> snd (snd (snd y))"
      using sentence_findings_ordinal[of x rs k line]
        enumerate_findings_ordinal[of y rs "Suc k" lines] by simp
  qed
  have d: "sorted (map (\<lambda>r. snd (snd (snd r))) ?rest)" by (rule Cons.IH)
  have "sorted (map (\<lambda>r. snd (snd (snd r))) (sentence_findings rs k line @ ?rest))"
    unfolding map_append sorted_append using b c d by simp
  then show ?case by simp
qed

subsection \<open>The matcher\<close>

text \<open>
  Claim C1. For every text and rule table, the text is cut at the character \<open>.\<close> and at
  nothing else (the pieces contain no \<open>.\<close> and joined by \<open>.\<close> they give the text back), and
  the findings of \<^verbatim>\<open>scan_contract\<close>, leaving their summaries aside, are exactly these: for
  each sentence, each category and each keyword of the category, one finding when the
  lowercased keyword is a contiguous substring of the trimmed, lowercased sentence, and
  none otherwise. Nothing is deduplicated, and the finding carries the sentence's index
  plus one.
\<close>

theorem scan_contract_findings:
  "map raw (fst (scan_contract api rs text s)) =
     [(risk_label, kw, strip line, i + 1).
        (i, line) \<leftarrow> enumerate 0 (split_on CHR ''.'' text),
        (risk_label, keywords) \<leftarrow> rs, kw \<leftarrow> keywords,
        sublist (lower kw) (lower (strip line))]
   \<and> join CHR ''.'' (split_on CHR ''.'' text) = text
   \<and> list_all (\<lambda>line. CHR ''.'' \<notin> set line) (split_on CHR ''.'' text)
   \<and> split_on CHR ''.'' text \<noteq> []"
  by (auto simp: scan_contract_raw match_findings_def sentence_findings_def py_in_sublist
       join_split_on split_on_not_Nil list_all_iff split_on_no_delim
       intro!: arg_cong[where f=concat] map_cong)

text \<open>A sentence matched by a keyword listed twice, and by two categories, yields a
  finding for each.\<close>

theorem scan_contract_findings_witness:
  "map raw (fst (scan_contract (\<lambda>s c. (Inr ''ok'', s)) [(''A'', [''x'', ''x'']), (''B'', [''X y''])] ''a x Y. X.'' ()))
     = [(''A'', ''x'', ''a x Y'', 1), (''A'', ''x'', ''a x Y'', 1), (''B'', ''X y'', ''a x Y'', 1),
        (''A'', ''x'', ''X'', 2), (''A'', ''x'', ''X'', 2)]"
proof -
  have "[(risk_label, kw, strip line, i + 1).
        (i, line) \<leftarrow> enumerate 0 (split_on CHR ''.'' ''a x Y. X.''),
        (risk_label, keywords) \<leftarrow> [(''A'', [''x'', ''x'']), (''B'', [''X y''])], kw \<leftarrow> keywords,
        sublist (lower kw) (lower (strip line))] =
      [(''A'', ''x'', ''a x Y'', 1::nat), (''A'', ''x'', ''a x Y'', 1), (''B'', ''X y'', ''a x Y'', 1),
        (''A'', ''x'', ''X'', 2), (''A'', ''x'', ''X'', 2)]"
    by code_simp
  then show ?thesis
    using scan_contract_findings[of "\<lambda>s c. (Inr ''ok'', s)" "[(''A'', [''x'', ''x'']), (''B'', [''X y''])]" "''a x Y. X.''" "()"]
    by simp
qed

subsection \<open>Failures of the summarizer\<close>

text \<open>
  Claim C3. Whatever the summarizer does, the scan returns one result per raw finding,
  in the same order: it is the enrichment of the raw findings, one call per finding. A
  call that raises is turned into the text \<^verbatim>\<open>AI summary error: \<close> followed by the
  exception's text, and the scan goes on with the service's next state; when every call
  raises, every finding is still there and carries that marker.
\<close>

theorem summarizer_failure_contained:
  "scan_contract api rs text s = enrich api (match_findings rs text) s
   \<and> map raw (fst (scan_contract api rs text s)) = match_findings rs text
   \<and> length (fst (scan_contract api rs text s)) = length (match_findings rs text)
   \<and> (api s clause = (Inl e, s') \<longrightarrow>
        ai_summarize_risk api clause s = (''AI summary error: '' @ e, s'))
   \<and> fst (scan_contract (\<lambda>s c. (Inl (err c), nxt s c)) rs text s) =
       map (\<lambda>(l, kw, sent, n).
              \<lparr>risk_type = l, keyword = kw, sentence = sent, line_number = n,
               ai_summary = ''AI summary error: '' @ err sent\<rparr>)
         (match_findings rs text)"
proof -
  have "length (map raw (fst (scan_contract api rs text s))) = length (match_findings rs text)"
    by (simp only: scan_contract_raw)
  then have "length (fst (scan_contract api rs text s)) = length (match_findings rs text)"
    by simp
  then show ?thesis
    by (simp add: scan_contract_enrich enrich_raw enrich_all_fail ai_summarize_risk_def)
qed

theorem summarizer_failure_contained_witness:
  "(\<lambda>s c. if s = (0::nat) then (Inl ''timeout'', 1) else (Inr ''ok'', s)) 0 ''liability''
       = (Inl ''timeout'', 1)
   \<and> ai_summarize_risk (\<lambda>s c. if s = (0::nat) then (Inl ''timeout'', 1) else (Inr ''ok'', s))
        ''liability'' 0 = (''AI summary error: timeout'', 1)
   \<and> fst (scan_contract (\<lambda>s c. if s = (0::nat) then (Inl ''timeout'', 1) else (Inr ''ok'', s))
        RISK_RULES ''liability. court'' 0) =
       [\<lparr>risk_type = ''Indemnity'', keyword = ''liability'', sentence = ''liability'',
         line_number = 1, ai_summary = ''AI summary error: timeout''\<rparr>,
        \<lparr>risk_type = ''Jurisdiction Risk'', keyword = ''court'', sentence = ''court'',
         line_number = 2, ai_summary = ''ok''\<rparr>]"
proof -
  have m: "match_findings RISK_RULES ''liability. court'' =
      [(''Indemnity'', ''liability'', ''liability'', 1), (''Jurisdiction Risk'', ''court'', ''court'', 2)]"
    by code_simp
  show ?thesis
    using summarizer_failure_contained[of
        "\<lambda>s c. if s = (0::nat) then (Inl ''timeout'', 1) else (Inr ''ok'', s)"
        RISK_RULES "''liability. court''" 0 "''liability''" "''timeout''" 1]
    by (simp add: m ai_summarize_risk_def)
qed

subsection \<open>Determinism and order\<close>

text \<open>
  Claim C4. The findings without their summaries depend on the text and the rule table
  only: two runs with any two summarizers, in any states, give the same list, the one
  \<open>match_findings\<close> computes. The list is in document order (the ordinals never decrease),
  and the findings of one sentence are those of \<open>sentence_findings\<close>: categories in the
  order of the rule table, keywords in the order of their list.
\<close>

theorem matcher_deterministic:
  "map raw (fst (scan_contract api rs text s)) = map raw (fst (scan_contract api' rs text s'))
   \<and> map raw (fst (scan_contract api rs text s)) = match_findings rs text
   \<and> sorted (map line_number (fst (scan_contract api rs text s)))
   \<and> map raw (filter (\<lambda>f. line_number f = i + 1) (fst (scan_contract api rs text s))) =
       (if i < length (split_on CHR ''.'' text)
        then sentence_findings rs i (split_on CHR ''.'' text ! i) else [])"
proof -
  let ?fs = "fst (scan_contract api rs text s)"
  have ln: "line_number = (\<lambda>r. snd (snd (snd r))) \<circ> raw"
    by (auto simp: raw_def)
  have "map line_number ?fs = map (\<lambda>r. snd (snd (snd r))) (map raw ?fs)"
    by (simp add: ln)
  then have srt: "sorted (map line_number ?fs)"
    by (simp only: scan_contract_raw match_findings_def sorted_enumerate_findings)
  have "map raw (filter (\<lambda>f. line_number f = i + 1) ?fs) =
        filter (\<lambda>r. snd (snd (snd r)) = Suc i) (map raw ?fs)"
    by (simp add: filter_map o_def raw_def)
  then have flt: "map raw (filter (\<lambda>f. line_number f = i + 1) ?fs) =
       (if i < length (split_on CHR ''.'' text)
        then sentence_findings rs i (split_on CHR ''.'' text ! i) else [])"
    by (simp add: scan_contract_raw match_findings_def filter_enumerate_findings)
  show ?thesis using srt flt by (simp add: scan_contract_raw)
qed

subsection \<open>The example of the specification\<close>

text \<open>
  Claim C9. With the default rule table the text
  \<^verbatim>\<open>The Vendor shall indemnify the Client. Payment is due within 30 days.\<close> gives exactly
  one finding: category Indemnity, keyword indemnify, sentence ordinal 1.
\<close>

theorem default_rules_example:
  "fst (scan_contract api RISK_RULES
          ''The Vendor shall indemnify the Client. Payment is due within 30 days.'' s) =
     [\<lparr>risk_type = ''Indemnity'', keyword = ''indemnify'',
       sentence = ''The Vendor shall indemnify the Client'', line_number = 1,
       ai_summary = fst (ai_summarize_risk api ''The Vendor shall indemnify the Client'' s)\<rparr>]
   \<and> length (fst (scan_contract api RISK_RULES
          ''The Vendor shall indemnify the Client. Payment is due within 30 days.'' s)) = 1"
  by (simp add: scan_contract_enrich match_example split: prod.splits)

end
